theory Spec2Isabelle
  imports Main
begin

section \<open>Instants, durations and formatting\<close>

text \<open>
  A naive Python \<open>datetime\<close> is modelled by the number of microseconds since
  0001-01-01T00:00:00, which is a Monday (\<open>date.weekday()\<close> is 0 there). A
  \<open>timedelta\<close> is a number of microseconds. The year range of \<open>datetime\<close> is not
  modelled.
\<close>

type_synonym instant = int

definition MINUTE :: int where "MINUTE = 60000000"
definition HOUR :: int where "HOUR = 3600000000"
definition DAY :: int where "DAY = 86400000000"

definition timedelta_minutes :: "int \<Rightarrow> int" where
  "timedelta_minutes m = m * MINUTE"

definition timedelta_days :: "int \<Rightarrow> int" where
  "timedelta_days d = d * DAY"

definition weekday :: "instant \<Rightarrow> int" where
  "weekday t = (t div DAY) mod 7"

text \<open>\<open>date.replace(hour=h, minute=0, second=0, microsecond=0)\<close>; \<open>None\<close> is the
  \<open>ValueError\<close> of an hour outside 0..23.\<close>

definition replace_hour :: "instant \<Rightarrow> int \<Rightarrow> instant option" where
  "replace_hour t h =
     (if 0 \<le> h \<and> h \<le> 23 then Some ((t div DAY) * DAY + h * HOUR) else None)"

definition hour_of :: "instant \<Rightarrow> int" where
  "hour_of t = (t mod DAY) div HOUR"

definition minute_of :: "instant \<Rightarrow> int" where
  "minute_of t = ((t mod DAY) mod HOUR) div MINUTE"

definition digit_char :: "nat \<Rightarrow> char" where
  "digit_char n = ''0123456789'' ! n"

definition two_digits :: "int \<Rightarrow> string" where
  "two_digits n = [digit_char (nat (n div 10)), digit_char (nat (n mod 10))]"

text \<open>\<open>strftime('%I:%M %p')\<close>: twelve-hour clock, zero padded, with AM or PM.\<close>

definition strftime_IMp :: "instant \<Rightarrow> string" where
  "strftime_IMp t =
     two_digits (if hour_of t mod 12 = 0 then 12 else hour_of t mod 12)
       @ '':'' @ two_digits (minute_of t) @ '' ''
       @ (if hour_of t < 12 then ''AM'' else ''PM'')"

text \<open>The Python slice \<open>xs[:n]\<close>; a negative \<open>n\<close> counts from the end.\<close>

definition py_prefix :: "int \<Rightarrow> 'a list \<Rightarrow> 'a list" where
  "py_prefix n xs =
     (if 0 \<le> n then take (nat n) xs else take (length xs - nat (- n)) xs)"

section \<open>Settings\<close>

record settings =
  BUSINESS_START_HOUR :: int
  BUSINESS_END_HOUR :: int
  BUSINESS_DAYS :: "int list"
  DEFAULT_APPOINTMENT_DURATION :: int
  BOOKING_BUFFER_MINUTES :: int
  MAX_SUGGESTIONS :: int
  AVAILABILITY_SEARCH_DAYS :: int

text \<open>The values \<open>Settings.__init__\<close> takes when the environment sets none.\<close>

definition default_settings :: settings where
  "default_settings =
     \<lparr>BUSINESS_START_HOUR = 9, BUSINESS_END_HOUR = 17, BUSINESS_DAYS = [0, 1, 2, 3, 4],
      DEFAULT_APPOINTMENT_DURATION = 60, BOOKING_BUFFER_MINUTES = 15,
      MAX_SUGGESTIONS = 10, AVAILABILITY_SEARCH_DAYS = 30\<rparr>"

section \<open>Events and the calendar store\<close>

text \<open>
  An event of the store, as far as the service reads it. \<open>status\<close> is
  \<open>event.get('status')\<close>. A time field is \<open>Absent\<close> when the event has no such key
  (\<open>event['start']\<close> raises \<open>KeyError\<close>), \<open>Unparsed\<close> when the service's
  \<open>_parse_datetime\<close> returns \<open>None\<close> for it, and \<open>At t\<close> when it parses to \<open>t\<close>.
\<close>

datatype time_field = Absent | Unparsed | At instant

record event =
  status :: "string option"
  ev_start :: time_field
  ev_end :: time_field

text \<open>\<open>events().list(timeMin, timeMax).execute()\<close> and its \<open>items\<close>; \<open>None\<close> when the
  call raises.\<close>

type_synonym list_query = "instant \<Rightarrow> instant \<Rightarrow> event list option"

section \<open>GoogleCalendarService.get_available_slots\<close>

text \<open>The loop that collects \<open>busy_times\<close>; \<open>None\<close> is the \<open>KeyError\<close> of a
  non-cancelled event without a start or an end.\<close>

fun busy_times ::
  "event list \<Rightarrow> (instant \<times> instant) list \<Rightarrow> (instant \<times> instant) list option" where
  "busy_times [] acc = Some acc"
| "busy_times (ev # evs) acc =
     (if status ev \<noteq> Some ''cancelled'' then
        (case ev_start ev of
           Absent \<Rightarrow> None
         | Unparsed \<Rightarrow> (case ev_end ev of Absent \<Rightarrow> None | _ \<Rightarrow> busy_times evs acc)
         | At s \<Rightarrow>
             (case ev_end ev of
                Absent \<Rightarrow> None
              | Unparsed \<Rightarrow> busy_times evs acc
              | At e \<Rightarrow> busy_times evs (acc @ [(s, e)])))
      else busy_times evs acc)"

text \<open>
  The two \<open>while\<close> loops. With a slot duration that is not positive, a loop whose
  condition holds never leaves it, so they are partial functions: \<open>None\<close> is a loop that
  does not return. The list holds the instants; the source formats each one as it appends
  it, \<open>get_available_slots\<close> below formats the list.
\<close>

partial_function (option) slots_before ::
  "int \<Rightarrow> int \<Rightarrow> instant \<Rightarrow> instant \<Rightarrow> instant list \<Rightarrow> (instant list \<times> instant) option" where
  "slots_before slot_duration buffer_duration busy_start current_time available_slots =
     (if current_time + slot_duration + buffer_duration \<le> busy_start
      then slots_before slot_duration buffer_duration busy_start
             (current_time + slot_duration) (available_slots @ [current_time])
      else Some (available_slots, current_time))"

partial_function (option) slots_after ::
  "int \<Rightarrow> instant \<Rightarrow> instant \<Rightarrow> instant list \<Rightarrow> instant list option" where
  "slots_after slot_duration end_of_day current_time available_slots =
     (if current_time + slot_duration \<le> end_of_day
      then slots_after slot_duration end_of_day
             (current_time + slot_duration) (available_slots @ [current_time])
      else Some available_slots)"

text \<open>The \<open>for busy_start, busy_end in busy_times\<close> loop.\<close>

fun walk_busy ::
  "int \<Rightarrow> int \<Rightarrow> (instant \<times> instant) list \<Rightarrow> instant \<Rightarrow> instant list
     \<Rightarrow> (instant list \<times> instant) option" where
  "walk_busy slot_duration buffer_duration [] current_time available_slots =
     Some (available_slots, current_time)"
| "walk_busy slot_duration buffer_duration ((busy_start, busy_end) # rest)
     current_time available_slots =
     (case (if busy_start - current_time \<ge> slot_duration + buffer_duration
            then slots_before slot_duration buffer_duration busy_start
                   current_time available_slots
            else Some (available_slots, current_time)) of
        None \<Rightarrow> None
      | Some (slots, cur) \<Rightarrow>
          walk_busy slot_duration buffer_duration rest
            (max cur (busy_end + buffer_duration)) slots)"

text \<open>
  The instants of the slots \<open>get_available_slots\<close> returns. Every exception inside
  the \<open>try\<close> gives the empty list.
\<close>

definition slot_starts :: "settings \<Rightarrow> list_query \<Rightarrow> instant \<Rightarrow> int \<Rightarrow> instant list option" where
  "slot_starts cfg list_events date duration_minutes =
     (case replace_hour date (BUSINESS_START_HOUR cfg) of
        None \<Rightarrow> Some []
      | Some start_of_day \<Rightarrow>
     (case replace_hour date (BUSINESS_END_HOUR cfg) of
        None \<Rightarrow> Some []
      | Some end_of_day \<Rightarrow>
     if weekday date \<notin> set (BUSINESS_DAYS cfg) then Some []
     else
     (case list_events start_of_day end_of_day of
        None \<Rightarrow> Some []
      | Some events \<Rightarrow>
     (case busy_times events [] of
        None \<Rightarrow> Some []
      | Some busy \<Rightarrow>
     (case walk_busy (timedelta_minutes duration_minutes)
             (timedelta_minutes (BOOKING_BUFFER_MINUTES cfg))
             (sort_key fst busy) start_of_day [] of
        None \<Rightarrow> None
      | Some (slots, cur) \<Rightarrow>
     (case slots_after (timedelta_minutes duration_minutes) end_of_day cur slots of
        None \<Rightarrow> None
      | Some available_slots \<Rightarrow>
          Some (py_prefix (MAX_SUGGESTIONS cfg) available_slots)))))))"

definition get_available_slots ::
  "settings \<Rightarrow> list_query \<Rightarrow> instant \<Rightarrow> int \<Rightarrow> string list option" where
  "get_available_slots cfg list_events date duration_minutes =
     map_option (map strftime_IMp) (slot_starts cfg list_events date duration_minutes)"

section \<open>GoogleCalendarService.check_availability and create_event\<close>

text \<open>
  Values of the entity dictionary and of the JSON the language model returns: \<open>null\<close>,
  a string or an integer. Other JSON values are not modelled.
\<close>

datatype jval = JNull | JStr string | JInt int

text \<open>The calls a function makes to the calendar store, in order.\<close>

datatype store_call =
    ListCall instant instant
  | InsertCall jval instant instant jval

record created_event =
  cr_status :: "string option"
  cr_htmlLink :: "string option"

text \<open>The store: \<open>events().list(...)\<close> and \<open>events().insert(...)\<close>; \<open>None\<close> is a call
  that raises. A naive datetime is sent with the suffix \<open>Z\<close>, so the instants are
  passed as they are.\<close>

record calendar_store =
  events_list :: list_query
  events_insert :: "jval \<Rightarrow> instant \<Rightarrow> instant \<Rightarrow> jval \<Rightarrow> created_event option"

text \<open>The conflict loop of \<open>check_availability\<close>: \<open>False\<close> at the first event that
  is not cancelled.\<close>

fun no_conflict :: "event list \<Rightarrow> bool" where
  "no_conflict [] = True"
| "no_conflict (ev # evs) =
     (if status ev \<noteq> Some ''cancelled'' then False else no_conflict evs)"

text \<open>The result and the store calls made. Both \<open>except\<close> branches return \<open>False\<close>.\<close>

definition check_availability ::
  "calendar_store \<Rightarrow> instant \<Rightarrow> instant \<Rightarrow> bool \<times> store_call list" where
  "check_availability store start_time end_time =
     (case events_list store start_time end_time of
        None \<Rightarrow> (False, [ListCall start_time end_time])
      | Some events \<Rightarrow> (no_conflict events, [ListCall start_time end_time]))"

text \<open>\<open>create_event\<close> re-raises what the insert raises: \<open>None\<close>.\<close>

definition create_event ::
  "calendar_store \<Rightarrow> jval \<Rightarrow> instant \<Rightarrow> instant \<Rightarrow> jval
     \<Rightarrow> created_event option \<times> store_call list" where
  "create_event store title start_time end_time description =
     (events_insert store title start_time end_time description,
      [InsertCall title start_time end_time description])"

section \<open>CalendarTools\<close>

text \<open>The messages of the tools, one constructor for each.\<close>

datatype tool_result =
    SlotAvailable instant
  | SlotNotAvailable instant
  | BookingNotAvailable instant
  | Booked jval instant int created_event
  | ToolError

text \<open>\<open>timedelta(minutes=duration)\<close> raises \<open>TypeError\<close> for a string.\<close>

definition minutes_of_jval :: "jval \<Rightarrow> int option" where
  "minutes_of_jval v = (case v of JNull \<Rightarrow> Some 60 | JInt n \<Rightarrow> Some n | JStr s \<Rightarrow> None)"

definition book_appointment ::
  "calendar_store \<Rightarrow> jval \<Rightarrow> instant \<Rightarrow> jval \<Rightarrow> jval \<Rightarrow> tool_result \<times> store_call list" where
  "book_appointment store title start_time duration_minutes description =
     (case minutes_of_jval duration_minutes of
        None \<Rightarrow> (ToolError, [])
      | Some duration \<Rightarrow>
          (let end_time = start_time + timedelta_minutes duration;
               (available, calls) = check_availability store start_time end_time
           in if \<not> available then (BookingNotAvailable start_time, calls)
              else
                (case create_event store title start_time end_time description of
                   (None, calls') \<Rightarrow> (ToolError, calls @ calls')
                 | (Some ev, calls') \<Rightarrow>
                     (Booked title start_time duration ev, calls @ calls'))))"

definition tools_check_availability ::
  "calendar_store \<Rightarrow> instant \<Rightarrow> int \<Rightarrow> tool_result \<times> store_call list" where
  "tools_check_availability store start_time duration_minutes =
     (let end_time = start_time + timedelta_minutes duration_minutes;
          (is_available, calls) = check_availability store start_time end_time
      in if is_available then (SlotAvailable start_time, calls)
         else (SlotNotAvailable start_time, calls))"

text \<open>
  \<open>find_next_available_slot\<close>: the loop over \<open>range(7)\<close>, as a scan of a list of day
  offsets. \<open>get_available_slots\<close> catches its own exceptions, so the \<open>except\<close> branch
  of the tool is not reached.
\<close>

datatype next_slot_result = NextAvailable string instant | NoSlotFound

fun scan_days ::
  "settings \<Rightarrow> list_query \<Rightarrow> instant \<Rightarrow> int \<Rightarrow> nat list \<Rightarrow> next_slot_result option" where
  "scan_days cfg list_events preferred_date duration_minutes [] = Some NoSlotFound"
| "scan_days cfg list_events preferred_date duration_minutes (i # rest) =
     (case get_available_slots cfg list_events
             (preferred_date + timedelta_days (int i)) duration_minutes of
        None \<Rightarrow> None
      | Some [] \<Rightarrow> scan_days cfg list_events preferred_date duration_minutes rest
      | Some (next_slot # _) \<Rightarrow>
          Some (NextAvailable next_slot (preferred_date + timedelta_days (int i))))"

definition find_next_available_slot ::
  "settings \<Rightarrow> list_query \<Rightarrow> instant \<Rightarrow> int \<Rightarrow> next_slot_result option" where
  "find_next_available_slot cfg list_events preferred_date duration_minutes =
     scan_days cfg list_events preferred_date duration_minutes [0..<7]"

section \<open>Notions used in the statements\<close>

text \<open>Two half-open intervals \<open>[a, b)\<close> and \<open>[c, d)\<close> share an instant.\<close>

definition overlap :: "int \<Rightarrow> int \<Rightarrow> int \<Rightarrow> int \<Rightarrow> bool" where
  "overlap a b c d = (max a c < min b d)"

text \<open>\<open>s\<close> is one of the anchors in \<open>A\<close> plus a whole number of steps \<open>d\<close>.\<close>

definition anchored :: "int \<Rightarrow> int set \<Rightarrow> int \<Rightarrow> bool" where
  "anchored d A s = (\<exists>a\<in>A. \<exists>k::nat. s = a + int k * d)"

text \<open>The busy interval of an event: none for a cancelled event and for one whose
  start or end does not parse.\<close>

definition busy_interval :: "event \<Rightarrow> (instant \<times> instant) option" where
  "busy_interval ev =
     (if status ev \<noteq> Some ''cancelled'' then
        (case (ev_start ev, ev_end ev) of (At s, At e) \<Rightarrow> Some (s, e) | _ \<Rightarrow> None)
      else None)"

text \<open>The business window of a date, and the events the store returns for it (none
  when the call raises).\<close>

definition business_start :: "settings \<Rightarrow> instant \<Rightarrow> instant" where
  "business_start cfg date = (date div DAY) * DAY + BUSINESS_START_HOUR cfg * HOUR"

definition business_end :: "settings \<Rightarrow> instant \<Rightarrow> instant" where
  "business_end cfg date = (date div DAY) * DAY + BUSINESS_END_HOUR cfg * HOUR"

definition business_events :: "settings \<Rightarrow> list_query \<Rightarrow> instant \<Rightarrow> event list" where
  "business_events cfg list_events date =
     (case list_events (business_start cfg date) (business_end cfg date) of
        None \<Rightarrow> [] | Some events \<Rightarrow> events)"

text \<open>The anchors of the slot grid: the start of the business window, and the end
  of each busy interval plus the buffer.\<close>

definition slot_anchors :: "settings \<Rightarrow> list_query \<Rightarrow> instant \<Rightarrow> instant set" where
  "slot_anchors cfg list_events date =
     insert (business_start cfg date)
       ((\<lambda>(bs, be). be + timedelta_minutes (BOOKING_BUFFER_MINUTES cfg)) `
          {p. \<exists>ev\<in>set (business_events cfg list_events date). busy_interval ev = Some p})"

text \<open>An event overlaps the query window \<open>[s, e)\<close>.\<close>

definition event_overlaps :: "event \<Rightarrow> instant \<Rightarrow> instant \<Rightarrow> bool" where
  "event_overlaps ev s e =
     (case (ev_start ev, ev_end ev) of (At a, At b) \<Rightarrow> overlap s e a b | _ \<Rightarrow> False)"

section \<open>Fixtures\<close>

text \<open>Monday 2024-01-15, and a store holding one confirmed event from 10:00 to 11:00
  on that day, returned for every window that overlaps it.\<close>

definition monday :: instant where
  "monday = 738899 * DAY"

definition one_event :: event where
  "one_event = \<lparr>status = Some ''confirmed'', ev_start = At (monday + 10 * HOUR),
                 ev_end = At (monday + 11 * HOUR)\<rparr>"

definition one_event_query :: list_query where
  "one_event_query timeMin timeMax =
     Some (if event_overlaps one_event timeMin timeMax then [one_event] else [])"

text \<open>A store holding one confirmed event that lasts the seven days from that Monday.\<close>

definition week_event :: event where
  "week_event = \<lparr>status = Some ''confirmed'', ev_start = At monday,
                  ev_end = At (monday + 7 * DAY)\<rparr>"

definition week_event_query :: list_query where
  "week_event_query timeMin timeMax =
     Some (if event_overlaps week_event timeMin timeMax then [week_event] else [])"

text \<open>A store whose list call raises, and whose insert would succeed.\<close>

definition failing_store :: calendar_store where
  "failing_store =
     \<lparr>events_list = (\<lambda>timeMin timeMax. None),
      events_insert = (\<lambda>title s e description.
         Some \<lparr>cr_status = Some ''confirmed'', cr_htmlLink = None\<rparr>)\<rparr>"

definition one_event_store :: calendar_store where
  "one_event_store =
     \<lparr>events_list = one_event_query,
      events_insert = (\<lambda>title s e description.
         Some \<lparr>cr_status = Some ''confirmed'', cr_htmlLink = None\<rparr>)\<rparr>"

section \<open>Python strings\<close>

text \<open>
  A \<open>str\<close> is a list of characters; only ASCII text is modelled. The white space
  of \<open>str.strip\<close>, of \<open>int\<close> and of the regular expression class \<open>\s\<close> is the
  same set of characters.
\<close>

definition digits :: string where
  "digits = ''0123456789''"

definition spaces :: string where
  "spaces = [CHR 0x09, CHR 0x0A, CHR 0x0B, CHR 0x0C, CHR 0x0D,
             CHR 0x1C, CHR 0x1D, CHR 0x1E, CHR 0x1F, CHR '' '']"

definition is_digit :: "char \<Rightarrow> bool" where
  "is_digit c = (c \<in> set digits)"

definition is_space :: "char \<Rightarrow> bool" where
  "is_space c = (c \<in> set spaces)"

definition uppercase :: string where
  "uppercase = ''ABCDEFGHIJKLMNOPQRSTUVWXYZ''"

definition lowercase :: string where
  "lowercase = ''abcdefghijklmnopqrstuvwxyz''"

definition lower_char :: "char \<Rightarrow> char" where
  "lower_char c = (case map_of (zip uppercase lowercase) c of Some l \<Rightarrow> l | None \<Rightarrow> c)"

definition upper_char :: "char \<Rightarrow> char" where
  "upper_char c = (case map_of (zip lowercase uppercase) c of Some u \<Rightarrow> u | None \<Rightarrow> c)"

text \<open>\<open>s.lower()\<close>, \<open>s.strip()\<close> and \<open>s.capitalize()\<close>.\<close>

definition lower :: "string \<Rightarrow> string" where
  "lower s = map lower_char s"

definition strip :: "string \<Rightarrow> string" where
  "strip s = rev (dropWhile is_space (rev (dropWhile is_space s)))"

definition capitalize :: "string \<Rightarrow> string" where
  "capitalize s = (case s of [] \<Rightarrow> [] | c # cs \<Rightarrow> upper_char c # lower cs)"

text \<open>\<open>sub in s\<close>.\<close>

fun contains :: "string \<Rightarrow> string \<Rightarrow> bool" where
  "contains sub [] = (sub = [])"
| "contains sub (c # cs) = (take (length sub) (c # cs) = sub \<or> contains sub cs)"

text \<open>\<open>s.replace(old, '')\<close> for a non-empty \<open>old\<close>: the occurrences are removed from
  left to right without overlap; the counter is the number of characters of the current
  occurrence still to skip.\<close>

fun remove_sub_aux :: "string \<Rightarrow> nat \<Rightarrow> string \<Rightarrow> string" where
  "remove_sub_aux old skip [] = []"
| "remove_sub_aux old (Suc k) (c # cs) = remove_sub_aux old k cs"
| "remove_sub_aux old 0 (c # cs) =
     (if old \<noteq> [] \<and> take (length old) (c # cs) = old
      then remove_sub_aux old (length old - 1) cs
      else c # remove_sub_aux old 0 cs)"

definition remove_sub :: "string \<Rightarrow> string \<Rightarrow> string" where
  "remove_sub old s = remove_sub_aux old 0 s"

text \<open>\<open>s.split(sep)\<close> for a separator of one character.\<close>

fun split_on :: "char \<Rightarrow> string \<Rightarrow> string list" where
  "split_on sep [] = [[]]"
| "split_on sep (c # cs) =
     (if c = sep then [] # split_on sep cs
      else (case split_on sep cs of [] \<Rightarrow> [[c]] | p # ps \<Rightarrow> (c # p) # ps))"

text \<open>
  \<open>int(s)\<close>: white space around is stripped, a sign may come first, and single
  underscores may separate digits. \<open>None\<close> is the \<open>ValueError\<close>.
\<close>

definition digit_value :: "char \<Rightarrow> nat" where
  "digit_value c = of_char c - 48"

fun int_digits :: "nat \<Rightarrow> bool \<Rightarrow> string \<Rightarrow> nat option" where
  "int_digits acc prev [] = (if prev then Some acc else None)"
| "int_digits acc prev (c # cs) =
     (if is_digit c then int_digits (10 * acc + digit_value c) True cs
      else if c = CHR ''_'' \<and> prev then int_digits acc False cs
      else None)"

definition py_int :: "string \<Rightarrow> int option" where
  "py_int s =
     (case strip s of
        [] \<Rightarrow> None
      | c # cs \<Rightarrow>
          if c = CHR ''-'' then map_option (\<lambda>n. - int n) (int_digits 0 False cs)
          else if c = CHR ''+'' then map_option int (int_digits 0 False cs)
          else map_option int (int_digits 0 False (c # cs)))"



text \<open>\<open>str(n)\<close> for a natural number, and the format \<open>{n:02d}\<close>.\<close>

fun str_nat :: "nat \<Rightarrow> string" where
  "str_nat n = (if n < 10 then [digit_char n] else str_nat (n div 10) @ [digit_char (n mod 10)])"

declare str_nat.simps [simp del]

definition str_int :: "int \<Rightarrow> string" where
  "str_int n = (if n < 0 then CHR ''-'' # str_nat (nat (- n)) else str_nat (nat n))"

definition format_02d :: "int \<Rightarrow> string" where
  "format_02d n = replicate (2 - length (str_int n)) CHR ''0'' @ str_int n"

section \<open>CalendarAgent: parsing dates and times\<close>

text \<open>\<open>time.replace(hour=h, minute=m)\<close> on midnight: the time of day as hour and
  minute; \<open>None\<close> is the \<open>ValueError\<close> of a value out of range.\<close>

definition time_replace :: "int \<Rightarrow> int \<Rightarrow> (int \<times> int) option" where
  "time_replace hour minute =
     (if 0 \<le> hour \<and> hour \<le> 23 \<and> 0 \<le> minute \<and> minute \<le> 59
      then Some (hour, minute) else None)"

text \<open>\<open>hour, minute = map(int, time_str.split(':'))\<close>: exactly two parts, both
  integers.\<close>

definition hour_minute :: "string \<Rightarrow> (int \<times> int) option" where
  "hour_minute time_str =
     (case map py_int (split_on CHR '':'' time_str) of
        [Some hour, Some minute] \<Rightarrow> Some (hour, minute)
      | _ \<Rightarrow> None)"

text \<open>
  \<open>_parse_time_component\<close>. Every exception is caught and gives \<open>None\<close>; a value
  that is not a string has no \<open>lower\<close> and ends there too.
\<close>

definition parse_time_component :: "jval \<Rightarrow> (int \<times> int) option" where
  "parse_time_component v =
     (case v of
        JNull \<Rightarrow> None
      | JInt n \<Rightarrow> None
      | JStr s \<Rightarrow>
          if s = [] then None
          else
            (let time_str = strip (lower s) in
             if contains ''pm'' time_str \<or> contains ''am'' time_str then
               (let is_pm = contains ''pm'' time_str;
                    time_str = strip (remove_sub ''am'' (remove_sub ''pm'' time_str))
                in case (if CHR '':'' \<in> set time_str then hour_minute time_str
                         else map_option (\<lambda>hour. (hour, 0)) (py_int time_str)) of
                     None \<Rightarrow> None
                   | Some (hour, minute) \<Rightarrow>
                       time_replace
                         (if is_pm \<and> hour \<noteq> 12 then hour + 12
                          else if \<not> is_pm \<and> hour = 12 then 0
                          else hour)
                         minute)
             else if CHR '':'' \<in> set time_str then
               (case hour_minute time_str of
                  None \<Rightarrow> None
                | Some (hour, minute) \<Rightarrow> time_replace hour minute)
             else
               (case py_int time_str of
                  None \<Rightarrow> None
                | Some hour \<Rightarrow> time_replace hour 0)))"

text \<open>
  What \<open>_parse_date_component\<close> takes from outside: the clock, \<open>datetime.strptime\<close>
  (format, then text) and the parser of \<open>dateutil\<close>. A date is a number of days since
  0001-01-01; \<open>None\<close> is a call that raises.
\<close>

record date_env =
  now :: instant
  strptime_date :: "string \<Rightarrow> string \<Rightarrow> int option"
  dateutil_parse :: "string \<Rightarrow> int option"

definition date_formats :: "string list" where
  "date_formats = [''%Y-%m-%d'', ''%m/%d/%Y'', ''%m-%d-%Y'', ''%d/%m/%Y'', ''%d-%m-%Y'']"

fun try_formats :: "date_env \<Rightarrow> string list \<Rightarrow> string \<Rightarrow> int option" where
  "try_formats env [] date_str = None"
| "try_formats env (fmt # fmts) date_str =
     (case strptime_date env fmt date_str of
        Some d \<Rightarrow> Some d
      | None \<Rightarrow> try_formats env fmts date_str)"

definition parse_date_component :: "date_env \<Rightarrow> jval \<Rightarrow> int option" where
  "parse_date_component env v =
     (case v of
        JNull \<Rightarrow> None
      | JInt n \<Rightarrow> None
      | JStr s \<Rightarrow>
          if s = [] then None
          else
            (let date_str = strip (lower s) in
             if date_str = ''today'' then Some (now env div DAY)
             else if date_str = ''tomorrow'' then Some ((now env + timedelta_days 1) div DAY)
             else if date_str = ''yesterday'' then Some ((now env - timedelta_days 1) div DAY)
             else
               (case try_formats env date_formats date_str of
                  Some d \<Rightarrow> Some d
                | None \<Rightarrow> dateutil_parse env date_str)))"

text \<open>\<open>_parse_datetime\<close>: the date first, then the time, then
  \<open>datetime.combine\<close>. A \<open>date\<close> and a \<open>time\<close> object are always true.\<close>

definition parse_datetime :: "date_env \<Rightarrow> jval \<Rightarrow> jval \<Rightarrow> instant option" where
  "parse_datetime env date_str time_str =
     (case parse_date_component env date_str of
        None \<Rightarrow> None
      | Some target_date \<Rightarrow>
          (case parse_time_component time_str of
             None \<Rightarrow> None
           | Some (hour, minute) \<Rightarrow>
               Some (target_date * DAY + hour * HOUR + minute * MINUTE)))"

section \<open>CalendarAgent: the booking and availability handlers\<close>

text \<open>The entity dictionary; \<open>entities.get(k)\<close> and \<open>entities.get(k, default)\<close>; the
  truth value of an entity.\<close>

type_synonym entities = "string \<rightharpoonup> jval"

definition dict_get :: "entities \<Rightarrow> string \<Rightarrow> jval" where
  "dict_get entities k = (case entities k of None \<Rightarrow> JNull | Some v \<Rightarrow> v)"

definition dict_get_default :: "entities \<Rightarrow> string \<Rightarrow> jval \<Rightarrow> jval" where
  "dict_get_default entities k fallback = (case entities k of None \<Rightarrow> fallback | Some v \<Rightarrow> v)"

definition truthy :: "jval \<Rightarrow> bool" where
  "truthy v = (case v of JNull \<Rightarrow> False | JStr s \<Rightarrow> s \<noteq> [] | JInt n \<Rightarrow> n \<noteq> 0)"

text \<open>The answers of the two handlers: a fixed message, or the result of the tool.\<close>

datatype handler_result =
    NeedDateAndTimeToBook
  | DateTimeNotUnderstood
  | NeedDateAndTimeToCheck
  | DateTimeFormatNotUnderstood
  | ToolResult tool_result

definition handle_booking ::
  "date_env \<Rightarrow> calendar_store \<Rightarrow> entities \<Rightarrow> handler_result \<times> store_call list" where
  "handle_booking env store entities =
     (let title = dict_get_default entities ''title'' (JStr ''Appointment'');
          date = dict_get entities ''date'';
          time = dict_get entities ''time'';
          duration = dict_get_default entities ''duration'' (JInt 60);
          description = dict_get_default entities ''description'' (JStr [])
      in if \<not> truthy date \<or> \<not> truthy time then (NeedDateAndTimeToBook, [])
         else
           (case parse_datetime env date time of
              None \<Rightarrow> (DateTimeNotUnderstood, [])
            | Some booking_datetime \<Rightarrow>
                (let (result, calls) =
                       book_appointment store title booking_datetime
                         (if truthy duration then duration else JInt 60) description
                 in (ToolResult result, calls))))"

definition handle_availability_check ::
  "date_env \<Rightarrow> calendar_store \<Rightarrow> entities \<Rightarrow> handler_result \<times> store_call list" where
  "handle_availability_check env store entities =
     (let date = dict_get entities ''date'';
          time = dict_get entities ''time''
      in if \<not> truthy date \<or> \<not> truthy time then (NeedDateAndTimeToCheck, [])
         else
           (case parse_datetime env date time of
              None \<Rightarrow> (DateTimeFormatNotUnderstood, [])
            | Some check_datetime \<Rightarrow>
                (let (result, calls) = tools_check_availability store check_datetime 60
                 in (ToolResult result, calls))))"

section \<open>A fixed clock\<close>

text \<open>An environment whose clock shows the Monday of the fixtures at 08:00, and in
  which no absolute date format applies.\<close>

definition fixed_env :: date_env where
  "fixed_env =
     \<lparr>now = monday + 8 * HOUR,
      strptime_date = (\<lambda>fmt date_str. None),
      dateutil_parse = (\<lambda>date_str. None)\<rparr>"

section \<open>The regular expressions of the fallback extraction\<close>

text \<open>
  The fragment of Python's \<open>re\<close> the patterns use, under \<open>re.IGNORECASE\<close>: the word
  boundary \<open>\b\<close>, a literal (compared without case), a greedy repetition of a character
  class between a minimum and a maximum (no maximum: \<open>None\<close>), sequence, alternation, a
  numbered group, and the greedy option \<open>?\<close>.
\<close>

datatype rx =
    Bnd
  | Lit string
  | Rep string nat "nat option"
  | Seq rx rx
  | Alt rx rx
  | Grp nat rx
  | Opt rx

definition is_word :: "char \<Rightarrow> bool" where
  "is_word c = (c \<in> set (lowercase @ uppercase @ digits @ ''_''))"

text \<open>
  A matcher state is the character before the position, the text from the position on,
  and the groups closed so far (the latest first). \<open>run\<close> lists the states a pattern can
  end in, in the order in which a backtracking matcher tries them: the head of the list is
  the match Python reports.
\<close>

type_synonym rx_state = "char option \<times> string \<times> (nat \<times> string) list"

fun run :: "rx \<Rightarrow> rx_state \<Rightarrow> rx_state list" where
  "run Bnd (p, s, g) =
     (if (case p of None \<Rightarrow> False | Some c \<Rightarrow> is_word c)
           \<noteq> (case s of [] \<Rightarrow> False | c # _ \<Rightarrow> is_word c)
      then [(p, s, g)] else [])"
| "run (Lit w) (p, s, g) =
     (if w = [] then [(p, s, g)]
      else if length w \<le> length s \<and> lower (take (length w) s) = lower w
      then [(Some (s ! (length w - 1)), drop (length w) s, g)]
      else [])"
| "run (Rep cls lo hi) (p, s, g) =
     (let n = length (takeWhile (\<lambda>c. c \<in> set cls) s);
          m = (case hi of None \<Rightarrow> n | Some h \<Rightarrow> min h n)
      in map (\<lambda>k. (if k = 0 then p else Some (s ! (k - 1)), drop k s, g))
           (rev [lo..<Suc m]))"
| "run (Seq a b) st = concat (map (run b) (run a st))"
| "run (Alt a b) st = run a st @ run b st"
| "run (Grp i r) (p, s, g) =
     map (\<lambda>(p', s', g'). (p', s', (i, take (length s - length s') s) # g'))
       (run r (p, s, g))"
| "run (Opt r) st = run r st @ [st]"

text \<open>\<open>re.search\<close>: the first position, from the left, at which the pattern matches.
  The result is \<open>match.group()\<close> and the groups.\<close>

fun search_from :: "rx \<Rightarrow> char option \<Rightarrow> string \<Rightarrow> (string \<times> (nat \<times> string) list) option" where
  "search_from r p [] =
     (case run r (p, [], []) of
        [] \<Rightarrow> None
      | (p', s', g) # _ \<Rightarrow> Some ([], g))"
| "search_from r p (c # cs) =
     (case run r (p, c # cs, []) of
        [] \<Rightarrow> search_from r (Some c) cs
      | (p', s', g) # _ \<Rightarrow> Some (take (length (c # cs) - length s') (c # cs), g))"

definition re_search :: "rx \<Rightarrow> string \<Rightarrow> (string \<times> (nat \<times> string) list) option" where
  "re_search r message = search_from r None message"

text \<open>\<open>match.group(i)\<close>: \<open>None\<close> for a group that took no part in the match.\<close>

definition group :: "(nat \<times> string) list \<Rightarrow> nat \<Rightarrow> string option" where
  "group g i = map_of g i"

fun seqs :: "rx list \<Rightarrow> rx" where
  "seqs [] = Lit []"
| "seqs [r] = r"
| "seqs (r # rs) = Seq r (seqs rs)"

fun alts :: "string list \<Rightarrow> rx" where
  "alts [] = Lit []"
| "alts [w] = Lit w"
| "alts (w # ws) = Alt (Lit w) (alts ws)"

definition weekdays :: "string list" where
  "weekdays = [''monday'', ''tuesday'', ''wednesday'', ''thursday'', ''friday'', ''saturday'',
               ''sunday'']"

text \<open>The date patterns, each with its \<open>date_type\<close>.\<close>

definition date_patterns :: "(rx \<times> string option) list" where
  "date_patterns =
     [(seqs [Bnd, Grp 1 (Lit ''today''), Bnd], Some ''today''),
      (seqs [Bnd, Grp 1 (Lit ''tomorrow''), Bnd], Some ''tomorrow''),
      (seqs [Bnd, Grp 1 (Lit ''yesterday''), Bnd], Some ''yesterday''),
      (seqs [Bnd, Rep digits 1 (Some 2), Rep ''/-'' 1 (Some 1), Rep digits 1 (Some 2),
             Rep ''/-'' 1 (Some 1), Rep digits 2 (Some 4), Bnd], None),
      (seqs [Bnd, Grp 1 (alts weekdays), Bnd], None),
      (seqs [Bnd, Grp 1 (alts [''next'', ''this'']), Rep spaces 1 None,
             Grp 2 (alts ([''week'', ''month''] @ weekdays)), Bnd], None)]"

text \<open>The time patterns, each with its \<open>time_type\<close>.\<close>

datatype time_type = PM | AM | Full | H24

definition pm_pattern :: rx where
  "pm_pattern =
     seqs [Bnd, Grp 1 (Rep digits 1 (Some 2)), Rep spaces 0 None,
           Grp 2 (alts [''pm'', ''PM'']), Bnd]"

definition am_pattern :: rx where
  "am_pattern =
     seqs [Bnd, Grp 1 (Rep digits 1 (Some 2)), Rep spaces 0 None,
           Grp 2 (alts [''am'', ''AM'']), Bnd]"

definition full_pattern :: rx where
  "full_pattern =
     seqs [Bnd, Grp 1 (Rep digits 1 (Some 2)), Lit '':'', Grp 2 (Rep digits 2 (Some 2)),
           Rep spaces 0 None, Opt (Grp 3 (alts [''am'', ''pm'', ''AM'', ''PM''])), Bnd]"

definition h24_pattern :: rx where
  "h24_pattern =
     seqs [Bnd, Grp 1 (Rep digits 1 (Some 2)), Lit '':'', Grp 2 (Rep digits 2 (Some 2)), Bnd]"

definition time_patterns :: "(rx \<times> time_type) list" where
  "time_patterns =
     [(pm_pattern, PM), (am_pattern, AM), (full_pattern, Full), (h24_pattern, H24)]"


section \<open>CalendarAgent._simple_entity_extraction\<close>

text \<open>The loop over the date patterns: the first pattern that matches gives the date.\<close>

fun extract_date :: "(rx \<times> string option) list \<Rightarrow> string \<Rightarrow> string option" where
  "extract_date [] message = None"
| "extract_date ((pattern, date_type) # rest) message =
     (case re_search pattern message of
        None \<Rightarrow> extract_date rest message
      | Some (whole, g) \<Rightarrow>
          (case date_type of Some d \<Rightarrow> Some d | None \<Rightarrow> Some (strip whole)))"

text \<open>\<open>int(match.group(i))\<close>; the outer \<open>None\<close> is an exception (no such group, or
  not an integer).\<close>

definition int_group :: "(nat \<times> string) list \<Rightarrow> nat \<Rightarrow> int option" where
  "int_group g i = (case group g i of None \<Rightarrow> None | Some t \<Rightarrow> py_int t)"

text \<open>The time a match gives, by the type of its pattern; \<open>None\<close> is an exception.\<close>

definition time_of_match :: "time_type \<Rightarrow> string \<Rightarrow> (nat \<times> string) list \<Rightarrow> string option" where
  "time_of_match time_type whole g =
     (case time_type of
        PM \<Rightarrow>
          (case int_group g 1 of
             None \<Rightarrow> None
           | Some hour \<Rightarrow> Some (format_02d (if hour \<noteq> 12 then hour + 12 else hour) @ '':00''))
      | AM \<Rightarrow>
          (case int_group g 1 of
             None \<Rightarrow> None
           | Some hour \<Rightarrow> Some (format_02d (if hour = 12 then 0 else hour) @ '':00''))
      | Full \<Rightarrow>
          (case int_group g 1 of
             None \<Rightarrow> None
           | Some hour \<Rightarrow>
               (case int_group g 2 of
                  None \<Rightarrow> None
                | Some minute \<Rightarrow>
                    (let hour' =
                       (case group g 3 of
                          None \<Rightarrow> hour
                        | Some meridiem \<Rightarrow>
                            if meridiem = [] then hour
                            else if lower meridiem = ''pm'' \<and> hour \<noteq> 12 then hour + 12
                            else if lower meridiem = ''am'' \<and> hour = 12 then 0
                            else hour)
                     in Some (format_02d hour' @ '':'' @ format_02d minute))))
      | H24 \<Rightarrow> Some (strip whole))"

text \<open>The loop over the time patterns: the first pattern that matches gives the time.
  The outer \<open>None\<close> is an exception, the inner one a message without a time.\<close>

fun extract_time :: "(rx \<times> time_type) list \<Rightarrow> string \<Rightarrow> string option option" where
  "extract_time [] message = Some None"
| "extract_time ((pattern, time_type) # rest) message =
     (case re_search pattern message of
        None \<Rightarrow> extract_time rest message
      | Some (whole, g) \<Rightarrow>
          (case time_of_match time_type whole g of
             None \<Rightarrow> None
           | Some t \<Rightarrow> Some (Some t)))"

definition title_keywords :: "string list" where
  "title_keywords = [''meeting'', ''call'', ''appointment'', ''session'', ''conference'',
                     ''interview'']"

text \<open>The loop over the keywords: the first keyword that occurs in the lowered
  message, capitalised; the generic title when none occurs.\<close>

fun extract_title :: "string list \<Rightarrow> string \<Rightarrow> string" where
  "extract_title [] message = ''Appointment''"
| "extract_title (keyword # rest) message =
     (if contains keyword (lower message) then capitalize keyword
      else extract_title rest message)"

text \<open>The entity dictionary of the fallback; \<open>None\<close> is an exception.\<close>

definition simple_entity_extraction :: "string \<Rightarrow> entities option" where
  "simple_entity_extraction message =
     (let entities = Map.empty;
          entities = (case extract_date date_patterns message of
                        None \<Rightarrow> entities
                      | Some d \<Rightarrow> entities(''date'' \<mapsto> JStr d))
      in case extract_time time_patterns message of
           None \<Rightarrow> None
         | Some time \<Rightarrow>
             (let entities = (case time of
                                None \<Rightarrow> entities
                              | Some t \<Rightarrow> entities(''time'' \<mapsto> JStr t))
              in Some (entities(''title'' \<mapsto> JStr (extract_title title_keywords message)))))"

section \<open>The slot loops\<close>

lemma slots_before_spec:
  assumes "0 < d"
  shows "\<exists>new cur'. slots_before d b bs cur acc = Some (acc @ new, cur')
           \<and> (\<forall>s\<in>set new. (\<exists>k::nat. s = cur + int k * d) \<and> s + d + b \<le> bs)
           \<and> (\<exists>k::nat. cur' = cur + int k * d)"
proof (induction "nat (bs - (cur + d + b) + 1)" arbitrary: cur acc rule: less_induct)
  case less
  show ?case
  proof (cases "cur + d + b \<le> bs")
    case False
    then have "slots_before d b bs cur acc = Some (acc @ [], cur + int 0 * d)"
      by (subst slots_before.simps) simp
    then show ?thesis by fastforce
  next
    case True
    with assms have "nat (bs - (cur + d + d + b) + 1) < nat (bs - (cur + d + b) + 1)"
      by simp
    from less[OF this] obtain new cur' where
      r: "slots_before d b bs (cur + d) (acc @ [cur]) = Some ((acc @ [cur]) @ new, cur')"
      and n: "\<forall>s\<in>set new. (\<exists>k::nat. s = cur + d + int k * d) \<and> s + d + b \<le> bs"
      and c: "\<exists>k::nat. cur' = cur + d + int k * d"
      by blast
    have step: "cur + d + int k * d = cur + int (Suc k) * d" for k
      by (simp add: algebra_simps)
    have "slots_before d b bs cur acc = Some (acc @ (cur # new), cur')"
      using True r by (subst slots_before.simps) simp
    moreover have "\<forall>s\<in>set (cur # new). (\<exists>k::nat. s = cur + int k * d) \<and> s + d + b \<le> bs"
    proof
      fix s assume "s \<in> set (cur # new)"
      then consider "s = cur" | "s \<in> set new" by auto
      then show "(\<exists>k::nat. s = cur + int k * d) \<and> s + d + b \<le> bs"
      proof cases
        case 1
        then have "s = cur + int 0 * d" by simp
        with True 1 show ?thesis by blast
      next
        case 2
        with n step show ?thesis by metis
      qed
    qed
    moreover have "\<exists>k::nat. cur' = cur + int k * d"
      using c step by metis
    ultimately show ?thesis by blast
  qed
qed

lemma slots_after_spec:
  assumes "0 < d"
  shows "\<exists>new. slots_after d e cur acc = Some (acc @ new)
           \<and> (\<forall>s\<in>set new. (\<exists>k::nat. s = cur + int k * d) \<and> s + d \<le> e)"
proof (induction "nat (e - (cur + d) + 1)" arbitrary: cur acc rule: less_induct)
  case less
  show ?case
  proof (cases "cur + d \<le> e")
    case False
    then have "slots_after d e cur acc = Some (acc @ [])"
      by (subst slots_after.simps) simp
    then show ?thesis by fastforce
  next
    case True
    with assms have "nat (e - (cur + d + d) + 1) < nat (e - (cur + d) + 1)"
      by simp
    from less[OF this] obtain new where
      r: "slots_after d e (cur + d) (acc @ [cur]) = Some ((acc @ [cur]) @ new)"
      and n: "\<forall>s\<in>set new. (\<exists>k::nat. s = cur + d + int k * d) \<and> s + d \<le> e"
      by blast
    have step: "cur + d + int k * d = cur + int (Suc k) * d" for k
      by (simp add: algebra_simps)
    have "slots_after d e cur acc = Some (acc @ (cur # new))"
      using True r by (subst slots_after.simps) simp
    moreover have "\<forall>s\<in>set (cur # new). (\<exists>k::nat. s = cur + int k * d) \<and> s + d \<le> e"
    proof
      fix s assume "s \<in> set (cur # new)"
      then consider "s = cur" | "s \<in> set new" by auto
      then show "(\<exists>k::nat. s = cur + int k * d) \<and> s + d \<le> e"
      proof cases
        case 1
        then have "s = cur + int 0 * d" by simp
        with True 1 show ?thesis by blast
      next
        case 2
        with n step show ?thesis by metis
      qed
    qed
    ultimately show ?thesis by blast
  qed
qed


lemma anchored_self: "a \<in> A \<Longrightarrow> anchored d A a"
  unfolding anchored_def by (rule bexI[of _ a], rule exI[of _ 0]) simp_all

lemma anchored_step: "anchored d A c \<Longrightarrow> anchored d A (c + int k * d)"
proof -
  assume "anchored d A c"
  then obtain a j where a: "a \<in> A" and c: "c = a + int j * d"
    unfolding anchored_def by blast
  have "c + int k * d = a + int (j + k) * d"
    by (simp add: c algebra_simps)
  with a show ?thesis unfolding anchored_def by blast
qed

lemma anchored_mono: "anchored d A s \<Longrightarrow> A \<subseteq> B \<Longrightarrow> anchored d B s"
  unfolding anchored_def by blast

lemma ge_start: "0 < d \<Longrightarrow> cur \<le> cur + int k * (d::int)"
  by simp

lemma stage1:
  assumes "0 < d"
  shows "\<exists>new cur1.
           (if bs - cur \<ge> d + b then slots_before d b bs cur acc else Some (acc, cur))
             = Some (acc @ new, cur1)
           \<and> (\<forall>s\<in>set new. (\<exists>k::nat. s = cur + int k * d) \<and> s + d + b \<le> bs)
           \<and> (\<exists>k::nat. cur1 = cur + int k * d)"
proof (cases "bs - cur \<ge> d + b")
  case True
  then show ?thesis using slots_before_spec[OF assms, where bs=bs and cur=cur and b=b and acc=acc] by simp
next
  case False
  have "cur = cur + int 0 * d" by simp
  with False show ?thesis by fastforce
qed

lemma walk_busy_anchored:
  assumes "0 < d"
  shows "\<exists>new cur'. walk_busy d b bts cur acc = Some (acc @ new, cur')
           \<and> anchored d (insert cur ((\<lambda>(bs, be). be + b) ` set bts)) cur'
           \<and> (\<forall>s\<in>set new. anchored d (insert cur ((\<lambda>(bs, be). be + b) ` set bts)) s)"
proof (induction bts arbitrary: cur acc)
  case Nil
  show ?case by (simp add: anchored_self)
next
  case (Cons p rest)
  obtain bs be where p: "p = (bs, be)" by (cases p)
  let ?A = "insert cur ((\<lambda>(bs, be). be + b) ` set (p # rest))"
  from stage1[OF assms, where bs=bs and cur=cur and b=b and acc=acc] obtain new1 cur1 where
    s1: "(if bs - cur \<ge> d + b then slots_before d b bs cur acc else Some (acc, cur))
           = Some (acc @ new1, cur1)"
    and n1: "\<forall>s\<in>set new1. (\<exists>k::nat. s = cur + int k * d) \<and> s + d + b \<le> bs"
    and c1: "\<exists>k::nat. cur1 = cur + int k * d"
    by blast
  let ?cur2 = "max cur1 (be + b)"
  from Cons.IH[of ?cur2 "acc @ new1"] obtain new2 cur' where
    w: "walk_busy d b rest ?cur2 (acc @ new1) = Some ((acc @ new1) @ new2, cur')"
    and c': "anchored d (insert ?cur2 ((\<lambda>(bs, be). be + b) ` set rest)) cur'"
    and n2: "\<forall>s\<in>set new2. anchored d (insert ?cur2 ((\<lambda>(bs, be). be + b) ` set rest)) s"
    by blast
  have curA: "anchored d ?A cur" by (simp add: anchored_self)
  have a1: "anchored d ?A cur1"
    using c1 anchored_step[OF curA] by auto
  have a2: "anchored d ?A ?cur2"
  proof (cases "cur1 \<le> be + b")
    case True
    then have "?cur2 = be + b" by simp
    then show ?thesis by (simp add: p anchored_self)
  next
    case False
    then have "?cur2 = cur1" by simp
    with a1 show ?thesis by simp
  qed
  have lift: "anchored d ?A s"
    if "anchored d (insert ?cur2 ((\<lambda>(bs, be). be + b) ` set rest)) s" for s
  proof -
    from that obtain a k where a: "a \<in> insert ?cur2 ((\<lambda>(bs, be). be + b) ` set rest)"
      and s: "s = a + int k * d"
      unfolding anchored_def by blast
    show ?thesis
    proof (cases "a = ?cur2")
      case True
      with s anchored_step[OF a2, of k] show ?thesis by simp
    next
      case False
      with a have "a \<in> ?A" by auto
      from anchored_step[OF anchored_self[OF this], of d k] s show ?thesis by simp
    qed
  qed
  have res: "walk_busy d b (p # rest) cur acc = Some (acc @ (new1 @ new2), cur')"
    using s1 w by (simp add: p)
  have "\<forall>s\<in>set (new1 @ new2). anchored d ?A s"
  proof
    fix s assume "s \<in> set (new1 @ new2)"
    then consider "s \<in> set new1" | "s \<in> set new2" by auto
    then show "anchored d ?A s"
    proof cases
      case 1
      with n1 obtain k :: nat where "s = cur + int k * d" by blast
      with anchored_step[OF curA, of k] show ?thesis by simp
    next
      case 2
      with n2 lift show ?thesis by blast
    qed
  qed
  with res lift[OF c'] show ?case by blast
qed

lemma walk_busy_clear:
  assumes "0 < d" and "0 \<le> b"
  shows "sorted (map fst bts) \<Longrightarrow>
         \<exists>new cur'. walk_busy d b bts cur acc = Some (acc @ new, cur')
           \<and> cur \<le> cur' \<and> (\<forall>(bs, be)\<in>set bts. be + b \<le> cur')
           \<and> (\<forall>s\<in>set new. cur \<le> s \<and> (\<forall>(bs, be)\<in>set bts. s + d \<le> bs \<or> be + b \<le> s))"
proof (induction bts arbitrary: cur acc)
  case Nil
  show ?case by simp
next
  case (Cons p rest)
  obtain bs be where p: "p = (bs, be)" by (cases p)
  from Cons.prems have srt: "sorted (map fst rest)"
    and le: "\<forall>(bs', be')\<in>set rest. bs \<le> bs'"
    by (auto simp: p)
  from stage1[OF assms(1), where bs=bs and cur=cur and b=b and acc=acc] obtain new1 cur1 where
    s1: "(if bs - cur \<ge> d + b then slots_before d b bs cur acc else Some (acc, cur))
           = Some (acc @ new1, cur1)"
    and n1: "\<forall>s\<in>set new1. (\<exists>k::nat. s = cur + int k * d) \<and> s + d + b \<le> bs"
    and c1: "\<exists>k::nat. cur1 = cur + int k * d"
    by blast
  let ?cur2 = "max cur1 (be + b)"
  from Cons.IH[OF srt, of ?cur2 "acc @ new1"] obtain new2 cur' where
    w: "walk_busy d b rest ?cur2 (acc @ new1) = Some ((acc @ new1) @ new2, cur')"
    and c2: "?cur2 \<le> cur'"
    and e2: "\<forall>(bs, be)\<in>set rest. be + b \<le> cur'"
    and n2: "\<forall>s\<in>set new2. ?cur2 \<le> s \<and> (\<forall>(bs, be)\<in>set rest. s + d \<le> bs \<or> be + b \<le> s)"
    by blast
  have cur1: "cur \<le> cur1" using c1 ge_start[OF assms(1)] by auto
  have res: "walk_busy d b (p # rest) cur acc = Some (acc @ (new1 @ new2), cur')"
    using s1 w by (simp add: p)
  have c': "cur \<le> cur'" using cur1 c2 by simp
  have e': "\<forall>(bs, be)\<in>set (p # rest). be + b \<le> cur'"
    using e2 c2 by (auto simp: p)
  have "\<forall>s\<in>set (new1 @ new2). cur \<le> s \<and> (\<forall>(bs, be)\<in>set (p # rest). s + d \<le> bs \<or> be + b \<le> s)"
  proof
    fix s assume "s \<in> set (new1 @ new2)"
    then consider "s \<in> set new1" | "s \<in> set new2" by auto
    then show "cur \<le> s \<and> (\<forall>(bs, be)\<in>set (p # rest). s + d \<le> bs \<or> be + b \<le> s)"
    proof cases
      case 1
      with n1 have k: "\<exists>k::nat. s = cur + int k * d" and b1: "s + d + b \<le> bs" by auto
      from k ge_start[OF assms(1)] have "cur \<le> s" by auto
      moreover from b1 assms(2) have "s + d \<le> bs" by simp
      moreover from this le have "\<forall>(bs', be')\<in>set rest. s + d \<le> bs'" by fastforce
      ultimately show ?thesis by (auto simp: p)
    next
      case 2
      with n2 have g: "?cur2 \<le> s" and r: "\<forall>(bs, be)\<in>set rest. s + d \<le> bs \<or> be + b \<le> s"
        by auto
      from g cur1 have "cur \<le> s" "be + b \<le> s" by simp_all
      with r show ?thesis by (auto simp: p)
    qed
  qed
  with res c' e' show ?case by blast
qed

lemmas tconsts = MINUTE_def HOUR_def DAY_def timedelta_minutes_def timedelta_days_def

lemma busy_times_set:
  "busy_times evs acc = Some r \<Longrightarrow>
     set r = set acc \<union> {p. \<exists>ev\<in>set evs. busy_interval ev = Some p}"
proof (induction evs arbitrary: acc)
  case Nil
  then show ?case by simp
next
  case (Cons ev evs)
  show ?case
  proof (cases "busy_interval ev")
    case None
    with Cons.prems have "busy_times evs acc = Some r"
      by (auto simp: busy_interval_def split: if_splits time_field.splits)
    from Cons.IH[OF this] None show ?thesis by auto
  next
    case (Some p)
    with Cons.prems have "busy_times evs (acc @ [p]) = Some r"
      by (auto simp: busy_interval_def split: if_splits time_field.splits)
    from Cons.IH[OF this] Some show ?thesis by auto
  qed
qed

lemma set_py_prefix: "set (py_prefix n xs) \<subseteq> set xs"
  by (auto simp: py_prefix_def dest: in_set_takeD)

lemma timedelta_pos: "0 < m \<Longrightarrow> 0 < timedelta_minutes m"
  by (simp add: timedelta_minutes_def MINUTE_def)

lemma timedelta_nonneg: "0 \<le> m \<Longrightarrow> 0 \<le> timedelta_minutes m"
  by (simp add: timedelta_minutes_def MINUTE_def)

text \<open>Either the function returns the empty list, or it ran the walk on the sorted
  busy intervals of the business window.\<close>

lemma slot_starts_cases:
  assumes "0 < duration_minutes"
  shows "slot_starts cfg list_events date duration_minutes = Some []
       \<or> (\<exists>busy slots cur all.
            busy_times (business_events cfg list_events date) [] = Some busy
          \<and> walk_busy (timedelta_minutes duration_minutes)
               (timedelta_minutes (BOOKING_BUFFER_MINUTES cfg))
               (sort_key fst busy) (business_start cfg date) [] = Some (slots, cur)
          \<and> slots_after (timedelta_minutes duration_minutes) (business_end cfg date) cur slots
               = Some all
          \<and> slot_starts cfg list_events date duration_minutes
               = Some (py_prefix (MAX_SUGGESTIONS cfg) all))"
proof -
  let ?d = "timedelta_minutes duration_minutes"
  let ?b = "timedelta_minutes (BOOKING_BUFFER_MINUTES cfg)"
  have d: "0 < ?d" using assms by (rule timedelta_pos)
  show ?thesis
  proof (cases "replace_hour date (BUSINESS_START_HOUR cfg)")
    case None
    then show ?thesis by (simp add: slot_starts_def)
  next
    case s: (Some sod)
    then have sod: "sod = business_start cfg date"
      by (auto simp: replace_hour_def business_start_def split: if_splits)
    show ?thesis
    proof (cases "replace_hour date (BUSINESS_END_HOUR cfg)")
      case None
      with s show ?thesis by (simp add: slot_starts_def)
    next
      case e: (Some eod)
      then have eod: "eod = business_end cfg date"
        by (auto simp: replace_hour_def business_end_def split: if_splits)
      show ?thesis
      proof (cases "weekday date \<in> set (BUSINESS_DAYS cfg)")
        case False
        with s e show ?thesis by (simp add: slot_starts_def)
      next
        case wd: True
        show ?thesis
        proof (cases "list_events sod eod")
          case None
          with s e wd show ?thesis by (simp add: slot_starts_def)
        next
          case l: (Some events)
          then have evs: "business_events cfg list_events date = events"
            by (simp add: business_events_def sod eod)
          show ?thesis
          proof (cases "busy_times events []")
            case None
            with s e wd l show ?thesis by (simp add: slot_starts_def)
          next
            case b: (Some busy)
            from walk_busy_anchored[OF d, of ?b "sort_key fst busy" sod "[]"]
            obtain slots cur where
              w: "walk_busy ?d ?b (sort_key fst busy) sod [] = Some (slots, cur)"
              by auto
            from slots_after_spec[OF d, of eod cur slots]
            obtain all where a: "slots_after ?d eod cur slots = Some all"
              by auto
            have "slot_starts cfg list_events date duration_minutes
                    = Some (py_prefix (MAX_SUGGESTIONS cfg) all)"
              using s e wd l b w a by (simp add: slot_starts_def)
            with b w a show ?thesis unfolding evs sod[symmetric] eod[symmetric] by blast
          qed
        qed
      qed
    qed
  qed
qed


lemma after_anchor:
  assumes "anchored d A cur" and "\<exists>k::nat. s = cur + int k * d"
  shows "anchored d A s"
  using assms anchored_step by blast

text \<open>C1. On a business day, with business hours 09:00 to 17:00, a buffer of 15
  minutes, slots of 60 minutes and one busy interval from 10:00 to 11:00 returned by the
  store, \<open>get_available_slots\<close> returns exactly the five slots that start at 11:15,
  12:15, 13:15, 14:15 and 15:15, in this order (\<open>MAX_SUGGESTIONS\<close> being at least 5, as
  its default 10 is).\<close>

theorem scenario_A_free_slots:
  assumes "weekday date \<in> set (BUSINESS_DAYS cfg)"
    and "BUSINESS_START_HOUR cfg = 9" and "BUSINESS_END_HOUR cfg = 17"
    and "BOOKING_BUFFER_MINUTES cfg = 15" and "5 \<le> MAX_SUGGESTIONS cfg"
    and "list_events (business_start cfg date) (business_end cfg date) = Some [ev]"
    and "busy_interval ev
           = Some (date div DAY * DAY + 10 * HOUR, date div DAY * DAY + 11 * HOUR)"
  shows "slot_starts cfg list_events date 60
           = Some (map (\<lambda>m. date div DAY * DAY + m * MINUTE) [675, 735, 795, 855, 915])
       \<and> get_available_slots cfg list_events date 60
           = Some [''11:15 AM'', ''12:15 PM'', ''01:15 PM'', ''02:15 PM'', ''03:15 PM'']"
proof -
  from assms(7) have b: "busy_times [ev] []
      = Some [(date div DAY * DAY + 10 * HOUR, date div DAY * DAY + 11 * HOUR)]"
    by (auto simp: busy_interval_def split: if_splits time_field.splits)
  have s: "slot_starts cfg list_events date 60
           = Some (map (\<lambda>m. date div DAY * DAY + m * MINUTE) [675, 735, 795, 855, 915])"
    using assms(1-6) b
    by (simp add: slot_starts_def replace_hour_def business_start_def business_end_def
          tconsts slots_before.simps slots_after.simps py_prefix_def)
  have f: "map strftime_IMp (map (\<lambda>m. date div DAY * DAY + m * MINUTE) [675, 735, 795, 855, 915])
         = [''11:15 AM'', ''12:15 PM'', ''01:15 PM'', ''02:15 PM'', ''03:15 PM'']"
    by (simp add: strftime_IMp_def hour_of_def minute_of_def two_digits_def digit_char_def
          tconsts)
  show ?thesis using s f by (simp add: get_available_slots_def)
qed

lemma monday_weekday: "weekday monday = 0"
  by (simp add: weekday_def monday_def DAY_def)

lemma monday_div: "monday div DAY * DAY = monday"
  by (simp add: monday_def DAY_def)

lemma monday_div_num: "monday div 86400000000 * 86400000000 = monday"
  by (simp add: monday_def DAY_def)

theorem scenario_A_free_slots_witness:
  "get_available_slots default_settings one_event_query monday 60
     = Some [''11:15 AM'', ''12:15 PM'', ''01:15 PM'', ''02:15 PM'', ''03:15 PM'']"
proof -
  have 1: "weekday monday \<in> set (BUSINESS_DAYS default_settings)"
    by (simp add: monday_weekday default_settings_def)
  have 2: "BUSINESS_START_HOUR default_settings = 9" "BUSINESS_END_HOUR default_settings = 17"
    "BOOKING_BUFFER_MINUTES default_settings = 15" "5 \<le> MAX_SUGGESTIONS default_settings"
    by (simp_all add: default_settings_def)
  have 3: "one_event_query (business_start default_settings monday)
             (business_end default_settings monday) = Some [one_event]"
    by (simp add: one_event_query_def event_overlaps_def one_event_def overlap_def
          business_start_def business_end_def default_settings_def monday_def tconsts)
  have 4: "busy_interval one_event
             = Some (monday div DAY * DAY + 10 * HOUR, monday div DAY * DAY + 11 * HOUR)"
    by (simp add: busy_interval_def one_event_def monday_div)
  from scenario_A_free_slots[where cfg=default_settings and list_events=one_event_query
      and date=monday and ev=one_event, OF 1 2 3 4]
  show ?thesis by simp
qed

text \<open>C2, as stated, fails: in the scenario above the first slot starts at 11:15,
  which is not the start of the business window (09:00) plus a whole number of slot
  durations (60 minutes).\<close>

theorem slot_alignment_counterexample:
  "slot_starts default_settings one_event_query monday 60
     = Some [monday + 675 * MINUTE, monday + 735 * MINUTE, monday + 795 * MINUTE,
             monday + 855 * MINUTE, monday + 915 * MINUTE]
   \<and> \<not> anchored (timedelta_minutes 60) {business_start default_settings monday}
         (monday + 675 * MINUTE)"
proof
  have b: "busy_times [one_event] [] = Some [(monday + 10 * HOUR, monday + 11 * HOUR)]"
    by (simp add: one_event_def)
  have q: "one_event_query (monday + 32400000000) (monday + 61200000000) = Some [one_event]"
    by (simp add: one_event_query_def event_overlaps_def one_event_def overlap_def
          monday_def tconsts)
  show "slot_starts default_settings one_event_query monday 60
     = Some [monday + 675 * MINUTE, monday + 735 * MINUTE, monday + 795 * MINUTE,
             monday + 855 * MINUTE, monday + 915 * MINUTE]"
    by (simp add: slot_starts_def replace_hour_def default_settings_def monday_weekday
          monday_div_num one_event_def q tconsts slots_before.simps slots_after.simps py_prefix_def)
  show "\<not> anchored (timedelta_minutes 60) {business_start default_settings monday}
         (monday + 675 * MINUTE)"
  proof
    assume "anchored (timedelta_minutes 60) {business_start default_settings monday}
         (monday + 675 * MINUTE)"
    then obtain k :: nat where
      "monday + 675 * MINUTE = business_start default_settings monday + int k * timedelta_minutes 60"
      unfolding anchored_def by blast
    then have "675 * MINUTE = 9 * HOUR + int k * (60 * MINUTE)"
      by (simp add: business_start_def default_settings_def monday_div timedelta_minutes_def)
    then have "(135::int) = int k * 60"
      by (simp add: MINUTE_def HOUR_def)
    then show False by presburger
  qed
qed

text \<open>C2, amended. For a positive duration \<open>get_available_slots\<close> returns, and
  every slot starts at an anchor plus a whole number of slot durations, where the anchors
  are the start of the business window and, for each busy interval, its end plus the
  buffer: the walk moves the cursor to \<open>max(cursor, busy_end + buffer)\<close> after each
  busy interval, which restarts the grid there.\<close>

theorem slots_anchored:
  assumes "0 < duration_minutes"
  shows "\<exists>slots. slot_starts cfg list_events date duration_minutes = Some slots
           \<and> (\<forall>s\<in>set slots. anchored (timedelta_minutes duration_minutes)
                 (slot_anchors cfg list_events date) s)"
proof -
  let ?d = "timedelta_minutes duration_minutes"
  let ?b = "timedelta_minutes (BOOKING_BUFFER_MINUTES cfg)"
  have d: "0 < ?d" using assms by (rule timedelta_pos)
  from slot_starts_cases[OF assms, of cfg list_events date]
  show ?thesis
  proof
    assume "slot_starts cfg list_events date duration_minutes = Some []"
    then show ?thesis by simp
  next
    assume "\<exists>busy slots cur all.
            busy_times (business_events cfg list_events date) [] = Some busy
          \<and> walk_busy ?d ?b (sort_key fst busy) (business_start cfg date) [] = Some (slots, cur)
          \<and> slots_after ?d (business_end cfg date) cur slots = Some all
          \<and> slot_starts cfg list_events date duration_minutes
               = Some (py_prefix (MAX_SUGGESTIONS cfg) all)"
    then obtain busy slots cur all where
      b: "busy_times (business_events cfg list_events date) [] = Some busy"
      and w: "walk_busy ?d ?b (sort_key fst busy) (business_start cfg date) [] = Some (slots, cur)"
      and a: "slots_after ?d (business_end cfg date) cur slots = Some all"
      and r: "slot_starts cfg list_events date duration_minutes
               = Some (py_prefix (MAX_SUGGESTIONS cfg) all)"
      by blast
    have A: "insert (business_start cfg date) ((\<lambda>(bs, be). be + ?b) ` set (sort_key fst busy))
               = slot_anchors cfg list_events date"
      using busy_times_set[OF b] by (simp add: slot_anchors_def)
    from walk_busy_anchored[OF d, where b="?b" and bts="sort_key fst busy"
        and cur="business_start cfg date" and acc="[]"] w
    have c: "anchored ?d (slot_anchors cfg list_events date) cur"
      and n: "\<forall>s\<in>set slots. anchored ?d (slot_anchors cfg list_events date) s"
      unfolding A by auto
    from slots_after_spec[OF d, where e="business_end cfg date" and cur=cur and acc=slots] a
    obtain new where all: "all = slots @ new"
      and n2: "\<forall>s\<in>set new. \<exists>k::nat. s = cur + int k * ?d"
      by auto
    have "\<forall>s\<in>set all. anchored ?d (slot_anchors cfg list_events date) s"
      using n n2 after_anchor[OF c] by (auto simp: all)
    with set_py_prefix[of "MAX_SUGGESTIONS cfg" all] r show ?thesis by auto
  qed
qed

text \<open>C3. For a positive duration and a buffer that is not negative, whatever events
  the store returns for the business window, in whatever order and however they overlap
  each other, \<open>get_available_slots\<close> returns, and no slot \<open>[s, s + duration)\<close> it returns
  intersects the interval of an event that is not cancelled, extended by the buffer at
  its end. The busy intervals are sorted by start (\<open>sort_key fst\<close> in \<open>slot_starts\<close>)
  before the walk.\<close>

theorem slots_avoid_busy:
  assumes "0 < duration_minutes" and "0 \<le> BOOKING_BUFFER_MINUTES cfg"
  shows "\<exists>slots. slot_starts cfg list_events date duration_minutes = Some slots
           \<and> (\<forall>s\<in>set slots. \<forall>ev\<in>set (business_events cfg list_events date).
                 \<forall>bs be. busy_interval ev = Some (bs, be) \<longrightarrow>
                   \<not> overlap s (s + timedelta_minutes duration_minutes)
                       bs (be + timedelta_minutes (BOOKING_BUFFER_MINUTES cfg)))"
proof -
  let ?d = "timedelta_minutes duration_minutes"
  let ?b = "timedelta_minutes (BOOKING_BUFFER_MINUTES cfg)"
  have d: "0 < ?d" using assms(1) by (rule timedelta_pos)
  have bf: "0 \<le> ?b" using assms(2) by (rule timedelta_nonneg)
  from slot_starts_cases[OF assms(1), of cfg list_events date]
  show ?thesis
  proof
    assume "slot_starts cfg list_events date duration_minutes = Some []"
    then show ?thesis by simp
  next
    assume "\<exists>busy slots cur all.
            busy_times (business_events cfg list_events date) [] = Some busy
          \<and> walk_busy ?d ?b (sort_key fst busy) (business_start cfg date) [] = Some (slots, cur)
          \<and> slots_after ?d (business_end cfg date) cur slots = Some all
          \<and> slot_starts cfg list_events date duration_minutes
               = Some (py_prefix (MAX_SUGGESTIONS cfg) all)"
    then obtain busy slots cur all where
      b: "busy_times (business_events cfg list_events date) [] = Some busy"
      and w: "walk_busy ?d ?b (sort_key fst busy) (business_start cfg date) [] = Some (slots, cur)"
      and a: "slots_after ?d (business_end cfg date) cur slots = Some all"
      and r: "slot_starts cfg list_events date duration_minutes
               = Some (py_prefix (MAX_SUGGESTIONS cfg) all)"
      by blast
    have B: "set (sort_key fst busy)
               = {p. \<exists>ev\<in>set (business_events cfg list_events date). busy_interval ev = Some p}"
      using busy_times_set[OF b] by simp
    have srt: "sorted (map fst (sort_key fst busy))" by (rule sorted_sort_key)
    from walk_busy_clear[OF d bf srt, where cur="business_start cfg date" and acc="[]"] w
    have e: "\<forall>(bs, be)\<in>set (sort_key fst busy). be + ?b \<le> cur"
      and n: "\<forall>s\<in>set slots. \<forall>(bs, be)\<in>set (sort_key fst busy). s + ?d \<le> bs \<or> be + ?b \<le> s"
      by auto
    from slots_after_spec[OF d, where e="business_end cfg date" and cur=cur and acc=slots] a
    obtain new where all: "all = slots @ new"
      and n2: "\<forall>s\<in>set new. \<exists>k::nat. s = cur + int k * ?d"
      by auto
    have n2': "\<forall>s\<in>set new. cur \<le> s"
      using n2 ge_start[OF d] by auto
    have clear: "\<forall>s\<in>set all. \<forall>(bs, be)\<in>set (sort_key fst busy). s + ?d \<le> bs \<or> be + ?b \<le> s"
      using n n2' e by (fastforce simp: all)
    have "\<forall>s\<in>set all. \<forall>ev\<in>set (business_events cfg list_events date).
            \<forall>bs be. busy_interval ev = Some (bs, be) \<longrightarrow> \<not> overlap s (s + ?d) bs (be + ?b)"
    proof (intro ballI allI impI)
      fix s ev bs be
      assume s: "s \<in> set all" and ev: "ev \<in> set (business_events cfg list_events date)"
        and i: "busy_interval ev = Some (bs, be)"
      from ev i have "(bs, be) \<in> set (sort_key fst busy)" unfolding B by blast
      with clear s have "s + ?d \<le> bs \<or> be + ?b \<le> s" by blast
      then show "\<not> overlap s (s + ?d) bs (be + ?b)"
        by (auto simp: overlap_def)
    qed
    with set_py_prefix[of "MAX_SUGGESTIONS cfg" all] r show ?thesis by auto
  qed
qed

section \<open>Availability check and next-slot search\<close>

lemma get_available_slots_total:
  assumes "0 < duration_minutes"
  shows "\<exists>slots. get_available_slots cfg list_events date duration_minutes = Some slots"
  using slot_starts_cases[OF assms, of cfg list_events date]
  by (auto simp: get_available_slots_def)

lemma scan_days_find:
  assumes "0 < dm"
  shows "scan_days cfg le pd dm days =
     Some (case find (\<lambda>i. get_available_slots cfg le (pd + timedelta_days (int i)) dm \<noteq> Some [])
                  days of
             None \<Rightarrow> NoSlotFound
           | Some i \<Rightarrow>
               NextAvailable
                 (hd (the (get_available_slots cfg le (pd + timedelta_days (int i)) dm)))
                 (pd + timedelta_days (int i)))"
proof (induction days)
  case Nil
  show ?case by simp
next
  case (Cons i rest)
  from get_available_slots_total[OF assms, of cfg le "pd + timedelta_days (int i)"]
  obtain slots where s: "get_available_slots cfg le (pd + timedelta_days (int i)) dm = Some slots"
    by blast
  show ?case
  proof (cases slots)
    case Nil
    with s Cons.IH show ?thesis by simp
  next
    case (Cons a list)
    with s show ?thesis by simp
  qed
qed

text \<open>C6, amended. For a positive duration \<open>find_next_available_slot\<close> returns;
  it scans the seven days that start at the preferred date, whatever
  \<open>AVAILABILITY_SEARCH_DAYS\<close> is, returns the first slot of the first of these days
  whose slot list is not empty, and reports that no slot was found exactly when all seven
  lists are empty.\<close>

theorem find_next_scans_seven_days:
  assumes "0 < duration_minutes"
  shows "\<exists>r. find_next_available_slot cfg list_events preferred_date duration_minutes = Some r
     \<and> (r = NoSlotFound \<longleftrightarrow>
          (\<forall>i<7. get_available_slots cfg list_events
                    (preferred_date + timedelta_days (int i)) duration_minutes = Some []))
     \<and> (\<forall>s t. r = NextAvailable s t \<longrightarrow>
          (\<exists>i<7. t = preferred_date + timedelta_days (int i)
             \<and> (\<exists>rest. get_available_slots cfg list_events
                          (preferred_date + timedelta_days (int i)) duration_minutes
                        = Some (s # rest))
             \<and> (\<forall>j<i. get_available_slots cfg list_events
                          (preferred_date + timedelta_days (int j)) duration_minutes
                        = Some [])))"
proof -
  let ?g = "\<lambda>i::nat. get_available_slots cfg list_events
                    (preferred_date + timedelta_days (int i)) duration_minutes"
  let ?P = "\<lambda>i. ?g i \<noteq> Some []"
  have r: "find_next_available_slot cfg list_events preferred_date duration_minutes =
     Some (case find ?P [0..<7] of
             None \<Rightarrow> NoSlotFound
           | Some i \<Rightarrow> NextAvailable (hd (the (?g i))) (preferred_date + timedelta_days (int i)))"
    unfolding find_next_available_slot_def by (rule scan_days_find[OF assms])
  show ?thesis
  proof (cases "find ?P [0..<7]")
    case None
    then have "\<forall>i<7. ?g i = Some []"
      by (auto simp: find_None_iff)
    with r None show ?thesis by simp
  next
    case (Some i)
    then obtain k where k: "k < length [0..<7::nat]" and P: "?P ([0..<7] ! k)"
      and i: "i = [0..<7] ! k" and m: "\<forall>j<k. \<not> ?P ([0..<7] ! j)"
      unfolding find_Some_iff by blast
    from k have k7: "k < 7" by simp
    with i have ik: "i = k" by (simp del: upt_rec_numeral)
    have m': "\<forall>j<i. ?g j = Some []"
    proof (intro allI impI)
      fix j assume "j < i"
      with ik k7 m have "\<not> ?P ([0..<7] ! j)" and "j < 7" by auto
      then show "?g j = Some []" by (simp del: upt_rec_numeral)
    qed
    from get_available_slots_total[OF assms, of cfg list_events
        "preferred_date + timedelta_days (int i)"]
    obtain slots where s: "?g i = Some slots" by blast
    with P i obtain a rest where c: "slots = a # rest" by (cases slots) auto
    have "find_next_available_slot cfg list_events preferred_date duration_minutes
            = Some (NextAvailable a (preferred_date + timedelta_days (int i)))"
      using r Some s c by simp
    moreover have "\<exists>i'<7. preferred_date + timedelta_days (int i)
                      = preferred_date + timedelta_days (int i')
             \<and> (\<exists>rest. ?g i' = Some (a # rest)) \<and> (\<forall>j<i'. ?g j = Some [])"
      using ik k7 s c m' by blast
    moreover have "\<not> (\<forall>i<7. ?g i = Some [])"
      using ik k7 s c by auto
    ultimately show ?thesis by simp
  qed
qed


text \<open>C10. When the list call of the store raises, \<open>check_availability\<close> returns
  \<open>False\<close> (in the model it always returns a value, so it never raises), and
  \<open>book_appointment\<close> answers that the slot is not available after that one list call:
  no insert call is made.\<close>

theorem list_failure_not_available:
  "(events_list store s e = None \<longrightarrow> check_availability store s e = (False, [ListCall s e]))
   \<and> (minutes_of_jval duration_minutes = Some d
        \<and> events_list store start_time (start_time + timedelta_minutes d) = None \<longrightarrow>
      book_appointment store title start_time duration_minutes description
        = (BookingNotAvailable start_time,
           [ListCall start_time (start_time + timedelta_minutes d)]))"
  by (simp add: check_availability_def book_appointment_def)

lemmas fixture_defs = default_settings_def one_event_query_def one_event_def
  week_event_query_def week_event_def event_overlaps_def overlap_def monday_def
  business_start_def business_end_def

lemmas engine_defs = slot_starts_def replace_hour_def weekday_def py_prefix_def
  slots_before.simps slots_after.simps

lemmas format_defs = get_available_slots_def strftime_IMp_def hour_of_def minute_of_def
  two_digits_def digit_char_def

theorem slots_anchored_witness:
  "(0::int) < 60
   \<and> (\<exists>slots. slot_starts default_settings one_event_query monday 60 = Some slots
        \<and> (\<forall>s\<in>set slots. anchored (timedelta_minutes 60)
              (slot_anchors default_settings one_event_query monday) s))"
  using slots_anchored[of 60 default_settings one_event_query monday] by simp

theorem slots_avoid_busy_witness:
  "(0::int) < 60 \<and> 0 \<le> BOOKING_BUFFER_MINUTES default_settings
   \<and> (\<exists>slots. slot_starts default_settings one_event_query monday 60 = Some slots
        \<and> (\<forall>s\<in>set slots. \<forall>ev\<in>set (business_events default_settings one_event_query monday).
              \<forall>bs be. busy_interval ev = Some (bs, be) \<longrightarrow>
                \<not> overlap s (s + timedelta_minutes 60)
                    bs (be + timedelta_minutes (BOOKING_BUFFER_MINUTES default_settings))))"
proof -
  have b: "0 \<le> BOOKING_BUFFER_MINUTES default_settings"
    by (simp add: default_settings_def)
  have d: "(0::int) < 60" by simp
  from slots_avoid_busy[OF d b, of one_event_query monday] b show ?thesis by simp
qed


theorem list_failure_not_available_witness:
  "check_availability failing_store monday (monday + timedelta_minutes 60)
     = (False, [ListCall monday (monday + timedelta_minutes 60)])
   \<and> book_appointment failing_store (JStr ''Meeting'') monday (JInt 60) (JStr [])
     = (BookingNotAvailable monday, [ListCall monday (monday + timedelta_minutes 60)])"
proof -
  have 1: "events_list failing_store monday (monday + timedelta_minutes 60) = None"
    by (simp add: failing_store_def)
  have 2: "minutes_of_jval (JInt 60) = Some 60" by (simp add: minutes_of_jval_def)
  from list_failure_not_available[of failing_store monday "monday + timedelta_minutes 60"
      "JInt 60" 60 monday "JStr ''Meeting''" "JStr []"] 1 2
  show ?thesis by simp
qed

lemma week_event_days:
  "get_available_slots default_settings week_event_query (monday + timedelta_days (int 0)) 60 = Some []"
  "get_available_slots default_settings week_event_query (monday + timedelta_days (int 1)) 60 = Some []"
  "get_available_slots default_settings week_event_query (monday + timedelta_days (int 2)) 60 = Some []"
  "get_available_slots default_settings week_event_query (monday + timedelta_days (int 3)) 60 = Some []"
  "get_available_slots default_settings week_event_query (monday + timedelta_days (int 4)) 60 = Some []"
  "get_available_slots default_settings week_event_query (monday + timedelta_days (int 5)) 60 = Some []"
  "get_available_slots default_settings week_event_query (monday + timedelta_days (int 6)) 60 = Some []"
  by (simp_all add: get_available_slots_def engine_defs fixture_defs tconsts)

lemma week_event_day7:
  "get_available_slots default_settings week_event_query (monday + timedelta_days 7) 60
     = Some [''09:00 AM'', ''10:00 AM'', ''11:00 AM'', ''12:00 PM'', ''01:00 PM'', ''02:00 PM'',
             ''03:00 PM'', ''04:00 PM'']"
  by (simp add: format_defs engine_defs fixture_defs tconsts)

text \<open>C6, as stated, fails: with the default settings the configured horizon is 30
  days, the calendar is blocked for the seven days from a Monday and free on the eighth
  day, and the search answers that no slot was found.\<close>

theorem search_horizon_counterexample:
  "find_next_available_slot default_settings week_event_query monday 60 = Some NoSlotFound
   \<and> 7 < AVAILABILITY_SEARCH_DAYS default_settings
   \<and> get_available_slots default_settings week_event_query (monday + timedelta_days 7) 60
       = Some [''09:00 AM'', ''10:00 AM'', ''11:00 AM'', ''12:00 PM'', ''01:00 PM'',
               ''02:00 PM'', ''03:00 PM'', ''04:00 PM'']"
proof -
  have "[0..<7] = [0, 1, 2, 3, 4, 5, 6::nat]" by (simp add: upt_rec)
  then have "find_next_available_slot default_settings week_event_query monday 60
               = Some NoSlotFound"
    using week_event_days by (simp add: find_next_available_slot_def del: upt_rec_numeral)
  moreover have "7 < AVAILABILITY_SEARCH_DAYS default_settings"
    by (simp add: default_settings_def)
  ultimately show ?thesis using week_event_day7 by simp
qed

theorem find_next_scans_seven_days_witness:
  "(0::int) < 60
   \<and> (\<exists>r. find_next_available_slot default_settings week_event_query monday 60 = Some r
     \<and> (r = NoSlotFound \<longleftrightarrow>
          (\<forall>i<7. get_available_slots default_settings week_event_query
                    (monday + timedelta_days (int i)) 60 = Some []))
     \<and> (\<forall>s t. r = NextAvailable s t \<longrightarrow>
          (\<exists>i<7. t = monday + timedelta_days (int i)
             \<and> (\<exists>rest. get_available_slots default_settings week_event_query
                          (monday + timedelta_days (int i)) 60
                        = Some (s # rest))
             \<and> (\<forall>j<i. get_available_slots default_settings week_event_query
                          (monday + timedelta_days (int j)) 60
                        = Some []))))"
  using find_next_scans_seven_days[of 60 default_settings week_event_query monday] by simp

section \<open>Time fragments\<close>

lemmas char_defs = is_digit_def digits_def is_space_def spaces_def lower_char_def
  upper_char_def uppercase_def lowercase_def is_word_def























lemma colon_not_space: "\<not> is_space CHR '':''"
  by (simp add: is_space_def spaces_def)

















section \<open>Time normalisation and the handlers\<close>



text \<open>C9. When the date or the time of the entity dictionary is absent or null, the
  booking handler and the availability handler, which \<open>_use_tools\<close> calls for the intents
  \<open>book_appointment\<close> and \<open>check_availability\<close>, both answer by asking for a date and
  a time, and make no call to the calendar store.\<close>

theorem missing_date_or_time_short_circuits:
  assumes "entities ''date'' \<in> {None, Some JNull} \<or> entities ''time'' \<in> {None, Some JNull}"
  shows "handle_booking env store entities = (NeedDateAndTimeToBook, [])
       \<and> handle_availability_check env store entities = (NeedDateAndTimeToCheck, [])"
proof -
  from assms have "\<not> truthy (dict_get entities ''date'') \<or> \<not> truthy (dict_get entities ''time'')"
    by (auto simp: dict_get_def truthy_def)
  then show ?thesis
    by (auto simp: handle_booking_def handle_availability_check_def Let_def)
qed

theorem missing_date_or_time_short_circuits_witness:
  "handle_booking fixed_env one_event_store [''date'' \<mapsto> JStr ''tomorrow'', ''time'' \<mapsto> JNull]
     = (NeedDateAndTimeToBook, [])
   \<and> handle_availability_check fixed_env one_event_store
       [''date'' \<mapsto> JStr ''tomorrow'', ''time'' \<mapsto> JNull]
     = (NeedDateAndTimeToCheck, [])"
proof -
  have "[''date'' \<mapsto> JStr ''tomorrow'', ''time'' \<mapsto> JNull] ''date'' \<in> {None, Some JNull}
      \<or> [''date'' \<mapsto> JStr ''tomorrow'', ''time'' \<mapsto> JNull] ''time'' \<in> {None, Some JNull}"
    by simp
  from missing_date_or_time_short_circuits[OF this] show ?thesis by blast
qed

section \<open>The fallback extraction\<close>





















text \<open>C5 asks that a time written \<open>H:MM\<close> with a meridiem, such as \<open>2:30 pm\<close>, is
  extracted as its 24-hour form, \<open>14:30\<close>. The code has a branch that does this
  conversion, but the pattern of an hour followed by \<open>pm\<close> is tried first and matches the
  minutes: on \<open>2:30 pm\<close> the extracted time is \<open>42:00\<close>.\<close>

theorem meridiem_after_minutes_shadowed:
  "map_option (\<lambda>entities. entities ''time'') (simple_entity_extraction ''2:30 pm'')
     = Some (Some (JStr ''42:00''))"
  by code_simp

end
